theory Spec2Isabelle
  imports Main "HOL-Library.Word"
begin

unbundle bit_operations_syntax

section \<open>Data model of main.c\<close>

text \<open>
  The target is a 32-bit Cortex-M4. \<open>uint32_t\<close> and \<open>int32_t\<close> are both 32-bit words;
  a \<open>uint32_t\<close> is read with \<open>uint\<close>, an \<open>int32_t\<close> in two's complement with \<open>sint\<close>.
  Arithmetic on words wraps, as the machine's does; where C calls a signed result
  out of range undefined, the predicates of the section on signed overflow say so.
\<close>

type_synonym uint32_t = "32 word"
type_synonym int32_t = "32 word"

text \<open>
  The calls into the vendor libraries (PDL, HAL, retarget-io) are not part of the
  repository. Each call the program makes is recorded, in order, as an event.
\<close>

datatype event =
    Printf_Pressed_key char
  | Printf_Wrong_key
  | Printf_Instructions
  | Printf_Period_Compare uint32_t int32_t int32_t
  | Printf_Clear_screen
  | Printf_Banner
  | Cybsp_init
  | Cy_retarget_io_init
  | Cyhal_uart_register_callback
  | Cyhal_uart_enable_event nat
  | Cy_TCPWM_PWM_Init
  | Cy_TCPWM_PWM_Enable
  | Cy_TCPWM_PWM_GetPeriod0
  | Cy_TCPWM_PWM_GetCompare1Val
  | Cy_TCPWM_PWM_GetCompare0Val
  | Cy_TCPWM_TriggerStart_Single
  | Enable_irq
  | Cy_TCPWM_PWM_SetCompare0BufVal uint32_t
  | Cy_TCPWM_PWM_SetCompare1BufVal uint32_t
  | Cy_TCPWM_TriggerCaptureOrSwap_Single
  | Cyhal_uart_read_async
  | Cyhal_system_delay_ms nat

text \<open>The global variables of main.c, and the record of the calls made so far.\<close>

record state =
  period :: uint32_t
  compare0_value :: int32_t
  compare1_value :: int32_t
  uart_read_flag :: bool
  calls :: "event list"

subsection \<open>Macros\<close>

definition UART_IRQ_PRIORITY :: nat where
  "UART_IRQ_PRIORITY = 3"

definition COMPARE_VALUE_DELTA :: int32_t where
  "COMPARE_VALUE_DELTA = 100"

definition DELAY_BETWEEN_READ_MS :: nat where
  "DELAY_BETWEEN_READ_MS = 100"

section \<open>Operations\<close>

definition emit :: "event \<Rightarrow> state \<Rightarrow> state" where
  "emit e st = st\<lparr>calls := calls st @ [e]\<rparr>"

text \<open>\<open>print_instructions\<close>: one \<open>printf\<close> of the fixed instruction text.\<close>

definition print_instructions :: "state \<Rightarrow> state" where
  "print_instructions st = emit Printf_Instructions st"

text \<open>
  The comparison \<open>compare_value > period\<close> has an \<open>int32_t\<close> on the left and a
  \<open>uint32_t\<close> on the right: the usual arithmetic conversions turn the left operand
  into \<open>uint32_t\<close> and the comparison is unsigned. On words that is \<open>period < c\<close>.
  The comparison \<open>compare_value < 0\<close> is signed.
\<close>

definition gt_period :: "int32_t \<Rightarrow> uint32_t \<Rightarrow> bool" where
  "gt_period c p \<longleftrightarrow> p < (ucast c :: uint32_t)"

definition lt_zero :: "int32_t \<Rightarrow> bool" where
  "lt_zero c \<longleftrightarrow> sint c < 0"

text \<open>The assignment \<open>compare_value = period\<close> converts \<open>uint32_t\<close> to \<open>int32_t\<close>.\<close>

definition to_int32 :: "uint32_t \<Rightarrow> int32_t" where
  "to_int32 p = ucast p"

text \<open>Passing an \<open>int32_t\<close> for a \<open>uint32_t\<close> parameter converts it back.\<close>

definition to_uint32 :: "int32_t \<Rightarrow> uint32_t" where
  "to_uint32 c = ucast c"

text \<open>
  \<open>process_key_press\<close>. The \<open>default\<close> branch returns before the register writes.
\<close>

definition update_compare_values :: "char \<Rightarrow> state \<Rightarrow> state option" where
  "update_compare_values key_pressed st =
    (if key_pressed = CHR ''s'' then
       (let c0 = compare0_value st + COMPARE_VALUE_DELTA;
            c1 = compare1_value st + COMPARE_VALUE_DELTA;
            c0 = (if gt_period c0 (period st) then to_int32 (period st) else c0);
            c1 = (if gt_period c1 (period st) then to_int32 (period st) else c1)
        in Some (st\<lparr>compare0_value := c0, compare1_value := c1\<rparr>))
     else if key_pressed = CHR ''w'' then
       (let c0 = compare0_value st - COMPARE_VALUE_DELTA;
            c1 = compare1_value st - COMPARE_VALUE_DELTA;
            c0 = (if lt_zero c0 then 0 else c0);
            c1 = (if lt_zero c1 then 0 else c1)
        in Some (st\<lparr>compare0_value := c0, compare1_value := c1\<rparr>))
     else if key_pressed = CHR ''a'' then
       (let c0 = compare0_value st - COMPARE_VALUE_DELTA;
            c1 = compare1_value st + COMPARE_VALUE_DELTA;
            c0 = (if lt_zero c0 then 0 else c0);
            c1 = (if gt_period c1 (period st) then to_int32 (period st) else c1)
        in Some (st\<lparr>compare0_value := c0, compare1_value := c1\<rparr>))
     else if key_pressed = CHR ''d'' then
       (let c0 = compare0_value st + COMPARE_VALUE_DELTA;
            c1 = compare1_value st - COMPARE_VALUE_DELTA;
            c0 = (if gt_period c0 (period st) then to_int32 (period st) else c0);
            c1 = (if lt_zero c1 then 0 else c1)
        in Some (st\<lparr>compare0_value := c0, compare1_value := c1\<rparr>))
     else None)"

definition process_key_press :: "char \<Rightarrow> state \<Rightarrow> state" where
  "process_key_press key_pressed st =
    (let st = emit (Printf_Pressed_key key_pressed) st in
     case update_compare_values key_pressed st of
       None \<Rightarrow> print_instructions (emit Printf_Wrong_key st)
     | Some st \<Rightarrow>
        (let st = emit (Printf_Period_Compare (period st) (compare0_value st)
                          (compare1_value st)) st;
             st = emit (Cy_TCPWM_PWM_SetCompare0BufVal (to_uint32 (compare0_value st))) st;
             st = emit (Cy_TCPWM_PWM_SetCompare1BufVal (to_uint32 (compare1_value st))) st
         in emit Cy_TCPWM_TriggerCaptureOrSwap_Single st))"

text \<open>
  Modelled from the spec: the macro \<open>CY_ASSERT\<close> is declared in the vendor library,
  not in the repository. The spec names it as the program's failure handling; a
  failed assertion is taken to end the run, so that no statement after it is executed.
\<close>

datatype halt = CY_ASSERT_failed

text \<open>
  \<open>uart_event_handler\<close>. The value of \<open>CYHAL_UART_IRQ_RX_DONE\<close> is declared in the
  HAL headers, so it is a parameter here.
\<close>

definition uart_event_handler :: "uint32_t \<Rightarrow> uint32_t \<Rightarrow> state \<Rightarrow> halt + state" where
  "uart_event_handler CYHAL_UART_IRQ_RX_DONE event st =
    (if CYHAL_UART_IRQ_RX_DONE = (event AND CYHAL_UART_IRQ_RX_DONE)
     then Inr (st\<lparr>uart_read_flag := True\<rparr>)
     else Inl CY_ASSERT_failed)"

text \<open>
  One pass through the body of \<open>for (;;)\<close> in \<open>main\<close>. The local \<open>uart_read_value\<close>
  is filled by the UART driver; its content when the flag is tested is an input.
\<close>

definition main_loop_iteration :: "char \<Rightarrow> state \<Rightarrow> state" where
  "main_loop_iteration uart_read_value st =
    (let st = emit Cyhal_uart_read_async st;
         st = (if uart_read_flag st
               then process_key_press uart_read_value (st\<lparr>uart_read_flag := False\<rparr>)
               else st)
     in emit (Cyhal_system_delay_ms DELAY_BETWEEN_READ_MS) st)"

text \<open>
  What the environment supplies to \<open>main\<close>: the result of \<open>cybsp_init\<close>, the value of
  \<open>CY_RSLT_SUCCESS\<close>, and the three registers read back from the TCPWM block.
\<close>

record board =
  CY_RSLT_SUCCESS :: uint32_t
  cybsp_init_result :: uint32_t
  Period0 :: uint32_t
  Compare0Val :: uint32_t
  Compare1Val :: uint32_t

text \<open>The globals before \<open>main\<close> runs: zero-initialised, the flag \<open>false\<close>.\<close>

definition startup :: state where
  "startup = \<lparr>period = 0, compare0_value = 0, compare1_value = 0,
              uart_read_flag = False, calls = []\<rparr>"

text \<open>\<open>main\<close> up to the first iteration of the loop.\<close>

definition main_init :: "board \<Rightarrow> halt + state" where
  "main_init b =
    (let st = emit Cybsp_init startup in
     if cybsp_init_result b \<noteq> CY_RSLT_SUCCESS b then Inl CY_ASSERT_failed
     else
      (let st = emit Cy_retarget_io_init st;
           st = emit Cyhal_uart_register_callback st;
           st = emit (Cyhal_uart_enable_event UART_IRQ_PRIORITY) st;
           st = emit Cy_TCPWM_PWM_Init st;
           st = emit Cy_TCPWM_PWM_Enable st;
           st = (emit Cy_TCPWM_PWM_GetPeriod0 st)\<lparr>period := Period0 b\<rparr>;
           st = (emit Cy_TCPWM_PWM_GetCompare1Val st)
                  \<lparr>compare1_value := to_int32 (Compare1Val b)\<rparr>;
           st = (emit Cy_TCPWM_PWM_GetCompare0Val st)
                  \<lparr>compare0_value := to_int32 (Compare0Val b)\<rparr>;
           st = emit Cy_TCPWM_TriggerStart_Single st;
           st = emit Enable_irq st;
           st = emit Printf_Clear_screen st;
           st = emit Printf_Banner st
       in Inr (print_instructions st)))"

text \<open>
  After \<open>__enable_irq()\<close> the run is an interleaving of loop iterations and calls of
  the event handler by the UART interrupt. The handler writes \<open>uart_read_flag\<close> only
  and \<open>process_key_press\<close> never reads it, so an interrupt inside an iteration has
  the effect of one just before or just after it; the schedule lists them so.
\<close>

datatype input = Uart_event uint32_t | Loop_iteration char

fun run :: "uint32_t \<Rightarrow> input list \<Rightarrow> state \<Rightarrow> halt + state" where
  "run rx_done [] st = Inr st"
| "run rx_done (Uart_event event # ins) st =
     (case uart_event_handler rx_done event st of
        Inl h \<Rightarrow> Inl h
      | Inr st' \<Rightarrow> run rx_done ins st')"
| "run rx_done (Loop_iteration c # ins) st = run rx_done ins (main_loop_iteration c st)"

text \<open>
  \<open>main\<close> on a finite prefix of the schedule; the loop itself never ends, so a run
  of \<open>main\<close> is described by all its finite prefixes.
\<close>

definition main :: "board \<Rightarrow> uint32_t \<Rightarrow> input list \<Rightarrow> halt + state" where
  "main b rx_done ins =
    (case main_init b of Inl h \<Rightarrow> Inl h | Inr st \<Rightarrow> run rx_done ins st)"

text \<open>
  The same loop statement by statement, with the points where the UART interrupt can
  come in between. A location names the statement the main thread executes next:
  the call of \<open>cyhal_uart_read_async\<close>, the test of \<open>uart_read_flag\<close>, the assignment
  \<open>uart_read_flag = false\<close>, the call of \<open>process_key_press\<close>, the call of
  \<open>cyhal_system_delay_ms\<close>. When the test finds the flag clear, the next statement
  is the delay. \<open>process_key_press\<close> is one step: it neither reads nor writes the flag.
\<close>

datatype location =
  At_read_async | At_flag_test | At_flag_clear | At_process_key_press | At_delay

definition main_loop_step :: "char \<Rightarrow> location \<times> state \<Rightarrow> location \<times> state" where
  "main_loop_step uart_read_value cfg =
    (let st = snd cfg in
     case fst cfg of
       At_read_async \<Rightarrow> (At_flag_test, emit Cyhal_uart_read_async st)
     | At_flag_test \<Rightarrow> (if uart_read_flag st then At_flag_clear else At_delay, st)
     | At_flag_clear \<Rightarrow> (At_process_key_press, st\<lparr>uart_read_flag := False\<rparr>)
     | At_process_key_press \<Rightarrow> (At_delay, process_key_press uart_read_value st)
     | At_delay \<Rightarrow> (At_read_async, emit (Cyhal_system_delay_ms DELAY_BETWEEN_READ_MS) st))"

datatype action = Step char | Interrupt uint32_t

fun exec :: "uint32_t \<Rightarrow> action list \<Rightarrow> location \<times> state \<Rightarrow> halt + location \<times> state" where
  "exec rx_done [] cfg = Inr cfg"
| "exec rx_done (Step c # as) cfg = exec rx_done as (main_loop_step c cfg)"
| "exec rx_done (Interrupt event # as) cfg =
     (case uart_event_handler rx_done event (snd cfg) of
        Inl h \<Rightarrow> Inl h
      | Inr st' \<Rightarrow> exec rx_done as (fst cfg, st'))"

subsection \<open>Signed overflow\<close>

text \<open>
  \<open>compare_value += COMPARE_VALUE_DELTA\<close> and \<open>-=\<close> are signed 32-bit operations; C leaves
  the result undefined when the mathematical value does not fit \<open>int32_t\<close>.
\<close>

definition fits_int32 :: "int \<Rightarrow> bool" where
  "fits_int32 i \<longleftrightarrow> - (2 ^ 31) \<le> i \<and> i < 2 ^ 31"

definition add_overflows :: "int32_t \<Rightarrow> int32_t \<Rightarrow> bool" where
  "add_overflows a b \<longleftrightarrow> \<not> fits_int32 (sint a + sint b)"

definition sub_overflows :: "int32_t \<Rightarrow> int32_t \<Rightarrow> bool" where
  "sub_overflows a b \<longleftrightarrow> \<not> fits_int32 (sint a - sint b)"

text \<open>Whether one of the two updates of the branch taken for \<open>key_pressed\<close> overflows.\<close>

definition signed_overflow :: "char \<Rightarrow> state \<Rightarrow> bool" where
  "signed_overflow key_pressed st =
    (if key_pressed = CHR ''s'' then
       add_overflows (compare0_value st) COMPARE_VALUE_DELTA \<or>
       add_overflows (compare1_value st) COMPARE_VALUE_DELTA
     else if key_pressed = CHR ''w'' then
       sub_overflows (compare0_value st) COMPARE_VALUE_DELTA \<or>
       sub_overflows (compare1_value st) COMPARE_VALUE_DELTA
     else if key_pressed = CHR ''a'' then
       sub_overflows (compare0_value st) COMPARE_VALUE_DELTA \<or>
       add_overflows (compare1_value st) COMPARE_VALUE_DELTA
     else if key_pressed = CHR ''d'' then
       add_overflows (compare0_value st) COMPARE_VALUE_DELTA \<or>
       sub_overflows (compare1_value st) COMPARE_VALUE_DELTA
     else False)"

text \<open>
  Whether one of the two \<open>if\<close> conditions of the branch taken for \<open>key_pressed\<close> holds,
  so that a compare value is replaced by \<open>period\<close> or by 0.
\<close>

definition clamp_fires :: "char \<Rightarrow> state \<Rightarrow> bool" where
  "clamp_fires key_pressed st =
    (if key_pressed = CHR ''s'' then
       gt_period (compare0_value st + COMPARE_VALUE_DELTA) (period st) \<or>
       gt_period (compare1_value st + COMPARE_VALUE_DELTA) (period st)
     else if key_pressed = CHR ''w'' then
       lt_zero (compare0_value st - COMPARE_VALUE_DELTA) \<or>
       lt_zero (compare1_value st - COMPARE_VALUE_DELTA)
     else if key_pressed = CHR ''a'' then
       lt_zero (compare0_value st - COMPARE_VALUE_DELTA) \<or>
       gt_period (compare1_value st + COMPARE_VALUE_DELTA) (period st)
     else if key_pressed = CHR ''d'' then
       gt_period (compare0_value st + COMPARE_VALUE_DELTA) (period st) \<or>
       lt_zero (compare1_value st - COMPARE_VALUE_DELTA)
     else False)"

subsection \<open>The range of the compare values\<close>

text \<open>Both compare values, read as signed integers, lie in \<open>[0, period]\<close>.\<close>

definition in_range :: "state \<Rightarrow> bool" where
  "in_range st \<longleftrightarrow>
     0 \<le> sint (compare0_value st) \<and> sint (compare0_value st) \<le> uint (period st) \<and>
     0 \<le> sint (compare1_value st) \<and> sint (compare1_value st) \<le> uint (period st)"

text \<open>The commands that \<open>process_key_press\<close> accepts.\<close>

definition commands :: "char set" where
  "commands = {CHR ''s'', CHR ''w'', CHR ''a'', CHR ''d''}"

text \<open>The calls added to the record by an operation that turns \<open>st\<close> into \<open>st'\<close>.\<close>

definition new_calls :: "state \<Rightarrow> state \<Rightarrow> event list" where
  "new_calls st st' = drop (length (calls st)) (calls st')"

text \<open>The pair of compare values.\<close>

definition compare_values :: "state \<Rightarrow> int32_t \<times> int32_t" where
  "compare_values st = (compare0_value st, compare1_value st)"

text \<open>
  The two shapes of update the branches of the \<open>switch\<close> are made of: add the delta and
  clamp at \<open>period\<close>, subtract the delta and clamp at 0. They name terms in the proofs.
\<close>

definition add_delta_clamped :: "uint32_t \<Rightarrow> int32_t \<Rightarrow> int32_t" where
  "add_delta_clamped p c =
     (if gt_period (c + COMPARE_VALUE_DELTA) p then to_int32 p else c + COMPARE_VALUE_DELTA)"

definition sub_delta_clamped :: "int32_t \<Rightarrow> int32_t" where
  "sub_delta_clamped c =
     (if lt_zero (c - COMPARE_VALUE_DELTA) then 0 else c - COMPARE_VALUE_DELTA)"

section \<open>Words read as integers\<close>

lemma sint_add_delta:
  assumes "0 \<le> sint (c :: int32_t)" and "sint c \<le> 2 ^ 31 - 101"
  shows "sint (c + COMPARE_VALUE_DELTA) = sint c + 100"
  using assms unfolding COMPARE_VALUE_DELTA_def
  by (simp add: sint_word_ariths signed_take_bit_int_eq_self)

lemma sint_sub_delta:
  assumes "0 \<le> sint (c :: int32_t)"
  shows "sint (c - COMPARE_VALUE_DELTA) = sint c - 100"
proof -
  have "sint c < 2 ^ 31"
    using sint_lt [of c] by simp
  then show ?thesis
    using assms unfolding COMPARE_VALUE_DELTA_def
    by (simp add: sint_word_ariths signed_take_bit_int_eq_self)
qed

lemma uint_of_nonneg:
  assumes "0 \<le> sint (c :: int32_t)"
  shows "uint c = sint c"
proof -
  have "sint c < 2 ^ 32"
    using sint_lt [of c] by simp
  then show ?thesis
    using assms by (simp add: uint_sint take_bit_int_eq_self)
qed

lemma sint_of_small:
  assumes "uint (p :: uint32_t) < 2 ^ 31"
  shows "sint p = uint p"
proof -
  have "- (2 ^ 31) \<le> (0 :: int)" by simp
  also have "0 \<le> uint p" by simp
  finally have "- (2 ^ 31) \<le> uint p" .
  then show ?thesis
    using assms by (simp add: sint_uint signed_take_bit_int_eq_self)
qed

lemma gt_period_iff:
  assumes "0 \<le> sint c"
  shows "gt_period c p \<longleftrightarrow> uint p < sint c"
  using uint_of_nonneg [OF assms] by (simp add: gt_period_def word_less_alt)

lemma sint_to_int32:
  assumes "uint p < 2 ^ 31"
  shows "sint (to_int32 p) = uint p"
  using sint_of_small [OF assms] by (simp add: to_int32_def)

lemma to_uint32_id: "to_uint32 c = c"
  by (simp add: to_uint32_def)

lemma sint_add_delta_clamped:
  assumes "0 \<le> sint c" and "sint c \<le> uint p" and "uint p \<le> 2 ^ 31 - 101"
  shows "sint (add_delta_clamped p c) = min (sint c + 100) (uint p)"
proof -
  have a: "sint (c + COMPARE_VALUE_DELTA) = sint c + 100"
    using assms by (intro sint_add_delta) auto
  have g: "gt_period (c + COMPARE_VALUE_DELTA) p \<longleftrightarrow> uint p < sint c + 100"
    using gt_period_iff [of "c + COMPARE_VALUE_DELTA" p] a assms(1) by simp
  have s: "sint (to_int32 p) = uint p"
    using assms(3) by (intro sint_to_int32) simp
  show ?thesis
    using a g s by (simp add: add_delta_clamped_def min_def)
qed

lemma sint_sub_delta_clamped:
  assumes "0 \<le> sint c"
  shows "sint (sub_delta_clamped c) = max (sint c - 100) 0"
  using sint_sub_delta [OF assms]
  by (simp add: sub_delta_clamped_def lt_zero_def max_def)

section \<open>What each branch of \<open>process_key_press\<close> does\<close>

lemma emit_fields:
  "period (emit e st) = period st"
  "compare0_value (emit e st) = compare0_value st"
  "compare1_value (emit e st) = compare1_value st"
  "uart_read_flag (emit e st) = uart_read_flag st"
  "calls (emit e st) = calls st @ [e]"
  by (simp_all add: emit_def)

lemma update_s:
  "update_compare_values CHR ''s'' st =
     Some (st\<lparr>compare0_value := add_delta_clamped (period st) (compare0_value st),
               compare1_value := add_delta_clamped (period st) (compare1_value st)\<rparr>)"
  by (simp add: update_compare_values_def add_delta_clamped_def Let_def)

lemma update_w:
  "update_compare_values CHR ''w'' st =
     Some (st\<lparr>compare0_value := sub_delta_clamped (compare0_value st),
               compare1_value := sub_delta_clamped (compare1_value st)\<rparr>)"
  by (simp add: update_compare_values_def sub_delta_clamped_def Let_def)

lemma update_a:
  "update_compare_values CHR ''a'' st =
     Some (st\<lparr>compare0_value := sub_delta_clamped (compare0_value st),
               compare1_value := add_delta_clamped (period st) (compare1_value st)\<rparr>)"
  by (simp add: update_compare_values_def add_delta_clamped_def sub_delta_clamped_def Let_def)

lemma update_d:
  "update_compare_values CHR ''d'' st =
     Some (st\<lparr>compare0_value := add_delta_clamped (period st) (compare0_value st),
               compare1_value := sub_delta_clamped (compare1_value st)\<rparr>)"
  by (simp add: update_compare_values_def add_delta_clamped_def sub_delta_clamped_def Let_def)

lemma update_other:
  "key \<notin> commands \<Longrightarrow> update_compare_values key st = None"
  by (simp add: update_compare_values_def commands_def)

lemma update_command:
  assumes "key \<in> commands"
  shows "\<exists>st'. update_compare_values key st = Some st'"
  using assms by (auto simp: commands_def update_s update_w update_a update_d)

lemma update_frame:
  assumes "update_compare_values key st = Some st'"
  shows "period st' = period st" and "uart_read_flag st' = uart_read_flag st"
    and "calls st' = calls st"
  using assms by (auto simp: update_compare_values_def Let_def split: if_splits)

lemma process_command:
  assumes "update_compare_values key (emit (Printf_Pressed_key key) st) = Some st'"
  shows "process_key_press key st =
    st'\<lparr>calls := calls st @
      [Printf_Pressed_key key,
       Printf_Period_Compare (period st') (compare0_value st') (compare1_value st'),
       Cy_TCPWM_PWM_SetCompare0BufVal (to_uint32 (compare0_value st')),
       Cy_TCPWM_PWM_SetCompare1BufVal (to_uint32 (compare1_value st')),
       Cy_TCPWM_TriggerCaptureOrSwap_Single]\<rparr>"
  using assms update_frame(3) [OF assms]
  by (simp add: process_key_press_def Let_def emit_def)

lemma process_other:
  assumes "key \<notin> commands"
  shows "process_key_press key st =
    st\<lparr>calls := calls st @ [Printf_Pressed_key key, Printf_Wrong_key, Printf_Instructions]\<rparr>"
  using update_other [OF assms]
  by (simp add: process_key_press_def Let_def emit_def print_instructions_def)

lemma process_s:
  "compare0_value (process_key_press CHR ''s'' st)
     = add_delta_clamped (period st) (compare0_value st)"
  "compare1_value (process_key_press CHR ''s'' st)
     = add_delta_clamped (period st) (compare1_value st)"
  by (simp_all add: process_command [OF update_s] emit_fields)

lemma process_w:
  "compare0_value (process_key_press CHR ''w'' st) = sub_delta_clamped (compare0_value st)"
  "compare1_value (process_key_press CHR ''w'' st) = sub_delta_clamped (compare1_value st)"
  by (simp_all add: process_command [OF update_w] emit_fields)

lemma process_a:
  "compare0_value (process_key_press CHR ''a'' st) = sub_delta_clamped (compare0_value st)"
  "compare1_value (process_key_press CHR ''a'' st)
     = add_delta_clamped (period st) (compare1_value st)"
  by (simp_all add: process_command [OF update_a] emit_fields)

lemma process_d:
  "compare0_value (process_key_press CHR ''d'' st)
     = add_delta_clamped (period st) (compare0_value st)"
  "compare1_value (process_key_press CHR ''d'' st) = sub_delta_clamped (compare1_value st)"
  by (simp_all add: process_command [OF update_d] emit_fields)

lemma process_period: "period (process_key_press key st) = period st"
  by (cases "update_compare_values key (emit (Printf_Pressed_key key) st)")
     (auto simp: process_key_press_def Let_def emit_fields print_instructions_def
        dest: update_frame(1))

lemma process_flag: "uart_read_flag (process_key_press key st) = uart_read_flag st"
  by (cases "update_compare_values key (emit (Printf_Pressed_key key) st)")
     (auto simp: process_key_press_def Let_def emit_fields print_instructions_def
        dest: update_frame(2))

lemma process_command_calls:
  assumes "key \<in> commands"
  shows "calls (process_key_press key st) = calls st @
     [Printf_Pressed_key key,
      Printf_Period_Compare (period st) (compare0_value (process_key_press key st))
        (compare1_value (process_key_press key st)),
      Cy_TCPWM_PWM_SetCompare0BufVal (compare0_value (process_key_press key st)),
      Cy_TCPWM_PWM_SetCompare1BufVal (compare1_value (process_key_press key st)),
      Cy_TCPWM_TriggerCaptureOrSwap_Single]"
proof -
  obtain st' where u: "update_compare_values key (emit (Printf_Pressed_key key) st) = Some st'"
    using update_command [OF assms] by blast
  show ?thesis
    using update_frame(1) [OF u]
    by (simp add: process_command [OF u] to_uint32_id emit_fields)
qed

lemma process_command_values:
  assumes "key \<in> commands"
  shows "compare0_value (process_key_press key st) =
           (if key \<in> {CHR ''s'', CHR ''d''}
            then add_delta_clamped (period st) (compare0_value st)
            else sub_delta_clamped (compare0_value st))"
    and "compare1_value (process_key_press key st) =
           (if key \<in> {CHR ''s'', CHR ''a''}
            then add_delta_clamped (period st) (compare1_value st)
            else sub_delta_clamped (compare1_value st))"
  using assms by (auto simp: commands_def process_s process_w process_a process_d)

lemma process_calls_append:
  "calls (process_key_press key st) = calls st @ new_calls st (process_key_press key st)"
proof (cases "key \<in> commands")
  case True
  show ?thesis
    by (simp add: new_calls_def process_command_calls [OF True])
next
  case False
  show ?thesis
    by (simp add: new_calls_def process_other [OF False])
qed

lemma process_first_call:
  "Printf_Pressed_key key \<in> set (new_calls st (process_key_press key st))"
proof (cases "key \<in> commands")
  case True
  show ?thesis
    by (simp add: new_calls_def process_command_calls [OF True])
next
  case False
  show ?thesis
    by (simp add: new_calls_def process_other [OF False])
qed

text \<open>The calls of \<open>process_key_press\<close> depend on the three integers only.\<close>

lemma process_new_calls_indep:
  assumes "period st2 = period st" and "compare0_value st2 = compare0_value st"
    and "compare1_value st2 = compare1_value st"
  shows "new_calls st2 (process_key_press key st2) = new_calls st (process_key_press key st)"
proof (cases "key \<in> commands")
  case True
  have "compare0_value (process_key_press key st2) = compare0_value (process_key_press key st)"
    and "compare1_value (process_key_press key st2) = compare1_value (process_key_press key st)"
    using assms by (simp_all only: process_command_values [OF True])
  then show ?thesis
    using assms(1) by (simp add: new_calls_def process_command_calls [OF True])
next
  case False
  show ?thesis
    by (simp add: new_calls_def process_other [OF False])
qed

section \<open>The loop, the handler and \<open>main\<close>\<close>

lemma iteration_period: "period (main_loop_iteration c st) = period st"
  by (simp add: main_loop_iteration_def Let_def emit_fields process_period)

lemma iteration_flag: "uart_read_flag (main_loop_iteration c st) = False"
  by (simp add: main_loop_iteration_def Let_def emit_fields process_flag)

lemma iteration_idle:
  assumes "\<not> uart_read_flag st"
  shows "compare_values (main_loop_iteration c st) = compare_values st"
  using assms by (simp add: main_loop_iteration_def Let_def emit_fields compare_values_def)

lemma iteration_calls:
  "calls (main_loop_iteration c st) =
     calls st @ [Cyhal_uart_read_async] @
     (if uart_read_flag st then new_calls st (process_key_press c st) else []) @
     [Cyhal_system_delay_ms 100]"
proof (cases "uart_read_flag st")
  case True
  let ?st2 = "(emit Cyhal_uart_read_async st)\<lparr>uart_read_flag := False\<rparr>"
  have n: "new_calls ?st2 (process_key_press c ?st2) = new_calls st (process_key_press c st)"
    by (rule process_new_calls_indep) (simp_all add: emit_def)
  have "calls (process_key_press c ?st2) =
          calls st @ [Cyhal_uart_read_async] @ new_calls st (process_key_press c st)"
    using process_calls_append [of c ?st2] n by (simp add: emit_def)
  then show ?thesis
    using True
    by (simp add: main_loop_iteration_def Let_def emit_fields DELAY_BETWEEN_READ_MS_def)
next
  case False
  then show ?thesis
    by (simp add: main_loop_iteration_def Let_def emit_fields DELAY_BETWEEN_READ_MS_def)
qed

lemma handler_period:
  assumes "uart_event_handler rx_done event st = Inr st'"
  shows "period st' = period st"
  using assms by (auto simp: uart_event_handler_def split: if_splits)

lemma run_period:
  assumes "run rx_done ins st = Inr st'"
  shows "period st' = period st"
  using assms
proof (induction ins arbitrary: st)
  case Nil
  then show ?case by simp
next
  case (Cons i ins)
  show ?case
  proof (cases i)
    case (Uart_event event)
    with Cons.prems obtain st1 where
      h: "uart_event_handler rx_done event st = Inr st1" and r: "run rx_done ins st1 = Inr st'"
      by (auto split: sum.splits)
    from Cons.IH [OF r] handler_period [OF h] show ?thesis by simp
  next
    case (Loop_iteration c)
    with Cons.prems have "run rx_done ins (main_loop_iteration c st) = Inr st'"
      by simp
    from Cons.IH [OF this] show ?thesis by (simp add: iteration_period)
  qed
qed

lemma main_init_period:
  assumes "main_init b = Inr st"
  shows "period st = Period0 b"
  using assms
  by (auto simp: main_init_def Let_def emit_def print_instructions_def split: if_splits)

text \<open>A run stops at the first event without the \<open>RX_DONE\<close> bit, and only there.\<close>

lemma run_halts_iff:
  "run rx_done ins st = Inl CY_ASSERT_failed \<longleftrightarrow>
     (\<exists>event. Uart_event event \<in> set ins \<and> rx_done \<noteq> (event AND rx_done))"
proof (induction ins arbitrary: st)
  case Nil
  show ?case by simp
next
  case (Cons i ins)
  show ?case
  proof (cases i)
    case (Uart_event event)
    show ?thesis
    proof (cases "rx_done = (event AND rx_done)")
      case True
      then show ?thesis
        using Cons.IH [of "st\<lparr>uart_read_flag := True\<rparr>"] Uart_event
        by (auto simp: uart_event_handler_def)
    next
      case False
      then show ?thesis
        using Uart_event by (auto simp: uart_event_handler_def)
    qed
  next
    case (Loop_iteration c)
    then show ?thesis
      using Cons.IH [of "main_loop_iteration c st"] by auto
  qed
qed

lemma main_init_halts_iff:
  "main_init b = Inl CY_ASSERT_failed \<longleftrightarrow> cybsp_init_result b \<noteq> CY_RSLT_SUCCESS b"
  by (simp add: main_init_def Let_def)

section \<open>The loop statement by statement\<close>

text \<open>Interrupts whose events all carry \<open>RX_DONE\<close> set the flag and change nothing else.\<close>

lemma exec_interrupts:
  assumes "\<forall>event \<in> set es. rx_done = (event AND rx_done)"
  shows "exec rx_done (map Interrupt es @ as) (l, st) =
           exec rx_done as (l, st\<lparr>uart_read_flag := uart_read_flag st \<or> es \<noteq> []\<rparr>)"
  using assms
proof (induction es arbitrary: st)
  case Nil
  show ?case by simp
next
  case (Cons e es)
  then have e: "rx_done = (e AND rx_done)"
    and es: "\<forall>event \<in> set es. rx_done = (event AND rx_done)"
    by simp_all
  have "uart_event_handler rx_done e st = Inr (st\<lparr>uart_read_flag := True\<rparr>)"
    using e by (simp add: uart_event_handler_def)
  then show ?case
    using Cons.IH [OF es, of "st\<lparr>uart_read_flag := True\<rparr>"] by simp
qed

lemma process_flag_update:
  "process_key_press c (st\<lparr>uart_read_flag := f\<rparr>) = (process_key_press c st)\<lparr>uart_read_flag := f\<rparr>"
  by (simp add: process_key_press_def update_compare_values_def emit_def Let_def
      print_instructions_def)

lemma step_read: "main_loop_step c (At_read_async, st) = (At_flag_test, emit Cyhal_uart_read_async st)"
  by (simp add: main_loop_step_def)

lemma step_test:
  "main_loop_step c (At_flag_test, st) = (if uart_read_flag st then At_flag_clear else At_delay, st)"
  by (simp add: main_loop_step_def)

lemma step_clear:
  "main_loop_step c (At_flag_clear, st) = (At_process_key_press, st\<lparr>uart_read_flag := False\<rparr>)"
  by (simp add: main_loop_step_def)

lemma step_process:
  "main_loop_step c (At_process_key_press, st) = (At_delay, process_key_press c st)"
  by (simp add: main_loop_step_def)

lemma step_delay:
  "main_loop_step c (At_delay, st) = (At_read_async, emit (Cyhal_system_delay_ms 100) st)"
  by (simp add: main_loop_step_def DELAY_BETWEEN_READ_MS_def)

lemmas steps = step_read step_test step_clear step_process step_delay

lemma iteration_flag_set:
  assumes good: "\<forall>event \<in> set (es1 @ es2 @ es3 @ es4). rx_done = (event AND rx_done)"
    and flag: "uart_read_flag st \<or> es1 \<noteq> []"
  shows "exec rx_done
           (Step c # map Interrupt es1 @ Step c # map Interrupt es2 @ Step c #
            map Interrupt es3 @ Step c # map Interrupt es4 @ [Step c]) (At_read_async, st) =
         Inr (At_read_async,
           (main_loop_iteration c (st\<lparr>uart_read_flag := True\<rparr>))
             \<lparr>uart_read_flag := es3 @ es4 \<noteq> []\<rparr>)"
proof -
  have g1: "\<forall>event \<in> set es1. rx_done = (event AND rx_done)"
    and g2: "\<forall>event \<in> set es2. rx_done = (event AND rx_done)"
    and g3: "\<forall>event \<in> set es3. rx_done = (event AND rx_done)"
    and g4: "\<forall>event \<in> set es4. rx_done = (event AND rx_done)"
    using good by auto
  show ?thesis
    using flag
    by (simp add: steps exec_interrupts [OF g1] exec_interrupts [OF g2]
        exec_interrupts [OF g3] exec_interrupts [OF g4] emit_def process_flag_update
        main_loop_iteration_def Let_def DELAY_BETWEEN_READ_MS_def)
qed

lemma iteration_flag_clear:
  assumes good: "\<forall>event \<in> set es. rx_done = (event AND rx_done)"
    and flag: "\<not> uart_read_flag st"
  shows "exec rx_done (Step c # Step c # map Interrupt es @ [Step c]) (At_read_async, st) =
         Inr (At_read_async, (main_loop_iteration c st)\<lparr>uart_read_flag := es \<noteq> []\<rparr>)"
  using flag
  by (simp add: steps exec_interrupts [OF good] emit_def main_loop_iteration_def Let_def
      DELAY_BETWEEN_READ_MS_def)

section \<open>Updates that do not clamp\<close>

lemma add_delta_not_clamped:
  assumes "0 \<le> sint c" and "sint c + 100 \<le> uint p"
  shows "add_delta_clamped p c = c + COMPARE_VALUE_DELTA"
proof -
  have "uint p < 2 ^ 32"
    using uint_lt2p [of p] by simp
  then have "uint c + 100 < 2 ^ 32"
    using assms uint_of_nonneg [OF assms(1)] by simp
  then have "uint (c + COMPARE_VALUE_DELTA) = uint c + 100"
    by (simp add: COMPARE_VALUE_DELTA_def uint_word_ariths take_bit_int_eq_self)
  then have "\<not> gt_period (c + COMPARE_VALUE_DELTA) p"
    using assms uint_of_nonneg [OF assms(1)] by (simp add: gt_period_def word_less_alt)
  then show ?thesis
    by (simp add: add_delta_clamped_def)
qed

lemma sub_delta_not_clamped:
  assumes "100 \<le> sint c"
  shows "sub_delta_clamped c = c - COMPARE_VALUE_DELTA"
proof -
  have "sint (c - COMPARE_VALUE_DELTA) = sint c - 100"
    using assms by (intro sint_sub_delta) simp
  then show ?thesis
    using assms by (simp add: sub_delta_clamped_def lt_zero_def)
qed

lemma no_clamp_a:
  assumes "\<not> clamp_fires CHR ''a'' st"
  shows "compare0_value (process_key_press CHR ''a'' st) = compare0_value st - COMPARE_VALUE_DELTA"
    and "compare1_value (process_key_press CHR ''a'' st) = compare1_value st + COMPARE_VALUE_DELTA"
  using assms
  by (simp_all add: clamp_fires_def process_a add_delta_clamped_def sub_delta_clamped_def)

lemma no_clamp_d:
  assumes "\<not> clamp_fires CHR ''d'' st"
  shows "compare0_value (process_key_press CHR ''d'' st) = compare0_value st + COMPARE_VALUE_DELTA"
    and "compare1_value (process_key_press CHR ''d'' st) = compare1_value st - COMPARE_VALUE_DELTA"
  using assms
  by (simp_all add: clamp_fires_def process_d add_delta_clamped_def sub_delta_clamped_def)

lemma no_clamp_w:
  assumes "\<not> clamp_fires CHR ''w'' st"
  shows "compare0_value (process_key_press CHR ''w'' st) = compare0_value st - COMPARE_VALUE_DELTA"
    and "compare1_value (process_key_press CHR ''w'' st) = compare1_value st - COMPARE_VALUE_DELTA"
  using assms
  by (simp_all add: clamp_fires_def process_w sub_delta_clamped_def)

lemma no_clamp_s:
  assumes "\<not> clamp_fires CHR ''s'' st"
  shows "compare0_value (process_key_press CHR ''s'' st) = compare0_value st + COMPARE_VALUE_DELTA"
    and "compare1_value (process_key_press CHR ''s'' st) = compare1_value st + COMPARE_VALUE_DELTA"
  using assms
  by (simp_all add: clamp_fires_def process_s add_delta_clamped_def)

lemma bounds_no_clamp_a_d:
  assumes "in_range st" and "100 \<le> sint (compare0_value st)"
    and "sint (compare1_value st) \<le> uint (period st) - 100"
  shows "\<not> clamp_fires CHR ''a'' st"
    and "\<not> clamp_fires CHR ''d'' (process_key_press CHR ''a'' st)"
proof -
  let ?p = "period st" and ?c0 = "compare0_value st" and ?c1 = "compare1_value st"
  have r: "0 \<le> sint ?c0" "sint ?c0 \<le> uint ?p" "0 \<le> sint ?c1"
    using assms(1) by (simp_all add: in_range_def)
  have s0: "sub_delta_clamped ?c0 = ?c0 - COMPARE_VALUE_DELTA"
    using assms(2) by (rule sub_delta_not_clamped)
  have a1: "add_delta_clamped ?p ?c1 = ?c1 + COMPARE_VALUE_DELTA"
    using r(3) assms(3) by (intro add_delta_not_clamped) simp_all
  have l0: "\<not> lt_zero (?c0 - COMPARE_VALUE_DELTA)"
    using sint_sub_delta [OF r(1)] assms(2) by (simp add: lt_zero_def)
  have g1: "\<not> gt_period (?c1 + COMPARE_VALUE_DELTA) ?p"
  proof
    assume "gt_period (?c1 + COMPARE_VALUE_DELTA) ?p"
    then have "add_delta_clamped ?p ?c1 = to_int32 ?p"
      by (simp add: add_delta_clamped_def)
    with a1 have "?c1 + COMPARE_VALUE_DELTA = to_int32 ?p"
      by simp
    with \<open>gt_period (?c1 + COMPARE_VALUE_DELTA) ?p\<close> show False
      by (simp add: gt_period_def to_int32_def)
  qed
  show first: "\<not> clamp_fires CHR ''a'' st"
    using l0 g1 by (simp add: clamp_fires_def)
  have g0: "\<not> gt_period ?c0 ?p"
    using gt_period_iff [OF r(1), of ?p] r(2) by simp
  have l1: "\<not> lt_zero ?c1"
    using r(3) by (simp add: lt_zero_def)
  show "\<not> clamp_fires CHR ''d'' (process_key_press CHR ''a'' st)"
    using g0 l1 by (simp add: clamp_fires_def no_clamp_a [OF first] process_period)
qed

lemma bounds_no_clamp_w_s:
  assumes "100 \<le> sint (compare0_value st)"
    and "sint (compare0_value st) \<le> uint (period st) - 100"
    and "100 \<le> sint (compare1_value st)"
    and "sint (compare1_value st) \<le> uint (period st) - 100"
  shows "\<not> clamp_fires CHR ''w'' st"
    and "\<not> clamp_fires CHR ''s'' (process_key_press CHR ''w'' st)"
proof -
  let ?p = "period st" and ?c0 = "compare0_value st" and ?c1 = "compare1_value st"
  have r0: "0 \<le> sint ?c0" and r1: "0 \<le> sint ?c1"
    using assms(1,3) by simp_all
  have l0: "\<not> lt_zero (?c0 - COMPARE_VALUE_DELTA)"
    using sint_sub_delta [OF r0] assms(1) by (simp add: lt_zero_def)
  have l1: "\<not> lt_zero (?c1 - COMPARE_VALUE_DELTA)"
    using sint_sub_delta [OF r1] assms(3) by (simp add: lt_zero_def)
  show first: "\<not> clamp_fires CHR ''w'' st"
    using l0 l1 by (simp add: clamp_fires_def)
  have g0: "\<not> gt_period ?c0 ?p"
    using gt_period_iff [OF r0, of ?p] assms(2) by simp
  have g1: "\<not> gt_period ?c1 ?p"
    using gt_period_iff [OF r1, of ?p] assms(4) by simp
  show "\<not> clamp_fires CHR ''s'' (process_key_press CHR ''w'' st)"
    using g0 g1 by (simp add: clamp_fires_def no_clamp_w [OF first] process_period)
qed

text \<open>
  The bounds \<open>100 \<le> compare0_value\<close> and \<open>compare1_value \<le> period - 100\<close> are those
  of \<open>a\<close>; they do not keep \<open>d\<close> from clamping.
\<close>

lemma bounds_alone_allow_clamp:
  "in_range \<lparr>period = 1000, compare0_value = 950, compare1_value = 500,
       uart_read_flag = False, calls = []\<rparr> \<and>
   100 \<le> sint (950 :: int32_t) \<and> sint (500 :: int32_t) \<le> uint (1000 :: uint32_t) - 100 \<and>
   clamp_fires CHR ''d'' \<lparr>period = 1000, compare0_value = 950, compare1_value = 500,
       uart_read_flag = False, calls = []\<rparr>"
  by (simp add: in_range_def clamp_fires_def gt_period_def COMPARE_VALUE_DELTA_def)

section \<open>Signed overflow of the updates\<close>

lemma add_delta_fits:
  assumes "0 \<le> sint c" and "sint c \<le> 2 ^ 31 - 101"
  shows "\<not> add_overflows c COMPARE_VALUE_DELTA"
  using assms by (simp add: add_overflows_def fits_int32_def COMPARE_VALUE_DELTA_def)

lemma sub_delta_fits:
  assumes "0 \<le> sint c"
  shows "\<not> sub_overflows c COMPARE_VALUE_DELTA"
proof -
  have "sint c < 2 ^ 31"
    using sint_lt [of c] by simp
  then show ?thesis
    using assms by (simp add: sub_overflows_def fits_int32_def COMPARE_VALUE_DELTA_def)
qed

text \<open>
  The bound \<open>2^31 - 101\<close> cannot be raised: with \<open>period = 2^31 - 100\<close> and
  \<open>compare0_value = period\<close> the addition for \<open>s\<close> leaves \<open>int32_t\<close>.
\<close>

lemma period_bound_needed:
  "in_range \<lparr>period = 2147483548, compare0_value = 2147483548, compare1_value = 0,
             uart_read_flag = False, calls = []\<rparr> \<and>
   signed_overflow CHR ''s'' \<lparr>period = 2147483548, compare0_value = 2147483548,
      compare1_value = 0, uart_read_flag = False, calls = []\<rparr>"
  by (simp add: in_range_def signed_overflow_def add_overflows_def fits_int32_def
      COMPARE_VALUE_DELTA_def)

section \<open>The compare values stay in range\<close>

text \<open>
  Claim C1. For every key among \<open>s\<close>, \<open>w\<close>, \<open>a\<close>, \<open>d\<close>: if both compare values lie in
  \<open>[0, period]\<close> before the call and \<open>period \<le> 2^31 - 101\<close>, both lie in \<open>[0, period]\<close>
  after \<open>process_key_press\<close>.
\<close>

theorem compare_values_stay_in_range:
  assumes "key \<in> commands" and "in_range st" and "uint (period st) \<le> 2 ^ 31 - 101"
  shows "in_range (process_key_press key st)"
proof -
  let ?p = "period st"
  have r0: "0 \<le> sint (compare0_value st)" "sint (compare0_value st) \<le> uint ?p"
    and r1: "0 \<le> sint (compare1_value st)" "sint (compare1_value st) \<le> uint ?p"
    using assms(2) by (simp_all add: in_range_def)
  note i0 = sint_add_delta_clamped [OF r0 assms(3)]
    and i1 = sint_add_delta_clamped [OF r1 assms(3)]
    and d0 = sint_sub_delta_clamped [OF r0(1)]
    and d1 = sint_sub_delta_clamped [OF r1(1)]
  from assms(1) consider "key = CHR ''s''" | "key = CHR ''w''" | "key = CHR ''a''"
    | "key = CHR ''d''"
    by (auto simp: commands_def)
  then show ?thesis
  proof cases
    case 1
    then show ?thesis
      using i0 i1 r0 r1 by (simp add: in_range_def process_s process_period)
  next
    case 2
    then show ?thesis
      using d0 d1 r0 r1 by (simp add: in_range_def process_w process_period)
  next
    case 3
    then show ?thesis
      using d0 i1 r0 r1 by (simp add: in_range_def process_a process_period)
  next
    case 4
    then show ?thesis
      using i0 d1 r0 r1 by (simp add: in_range_def process_d process_period)
  qed
qed

theorem compare_values_stay_in_range_witness:
  "CHR ''d'' \<in> commands \<and>
   in_range \<lparr>period = 1000, compare0_value = 950, compare1_value = 50,
             uart_read_flag = False, calls = []\<rparr> \<and>
   uint (1000 :: uint32_t) \<le> 2 ^ 31 - 101 \<and>
   in_range (process_key_press CHR ''d''
      \<lparr>period = 1000, compare0_value = 950, compare1_value = 50,
       uart_read_flag = False, calls = []\<rparr>)"
proof -
  let ?st = "\<lparr>period = 1000, compare0_value = 950, compare1_value = 50,
             uart_read_flag = False, calls = []\<rparr>"
  have h0: "CHR ''d'' \<in> commands"
    by (simp add: commands_def)
  have h1: "in_range ?st"
    by (simp add: in_range_def)
  have h2: "uint (period ?st) \<le> 2 ^ 31 - 101"
    by simp
  show ?thesis
    using h0 h1 compare_values_stay_in_range [OF h0 h1 h2] by simp
qed

section \<open>Clamped addition and subtraction\<close>

text \<open>
  Claim C2. With the old values in \<open>[0, period]\<close> and \<open>period \<le> 2^31 - 101\<close>, the new
  pair of compare values is \<open>(min (old0 + 100) period, min (old1 + 100) period)\<close> for
  \<open>s\<close>, \<open>(max (old0 - 100) 0, max (old1 - 100) 0)\<close> for \<open>w\<close>,
  \<open>(max (old0 - 100) 0, min (old1 + 100) period)\<close> for \<open>a\<close> and
  \<open>(min (old0 + 100) period, max (old1 - 100) 0)\<close> for \<open>d\<close>.
\<close>

theorem clamped_addition_subtraction:
  assumes "in_range st" and "uint (period st) \<le> 2 ^ 31 - 101"
  shows
   "sint (compare0_value (process_key_press CHR ''s'' st))
      = min (sint (compare0_value st) + 100) (uint (period st)) \<and>
    sint (compare1_value (process_key_press CHR ''s'' st))
      = min (sint (compare1_value st) + 100) (uint (period st)) \<and>
    sint (compare0_value (process_key_press CHR ''w'' st))
      = max (sint (compare0_value st) - 100) 0 \<and>
    sint (compare1_value (process_key_press CHR ''w'' st))
      = max (sint (compare1_value st) - 100) 0 \<and>
    sint (compare0_value (process_key_press CHR ''a'' st))
      = max (sint (compare0_value st) - 100) 0 \<and>
    sint (compare1_value (process_key_press CHR ''a'' st))
      = min (sint (compare1_value st) + 100) (uint (period st)) \<and>
    sint (compare0_value (process_key_press CHR ''d'' st))
      = min (sint (compare0_value st) + 100) (uint (period st)) \<and>
    sint (compare1_value (process_key_press CHR ''d'' st))
      = max (sint (compare1_value st) - 100) 0"
proof -
  have r0: "0 \<le> sint (compare0_value st)" "sint (compare0_value st) \<le> uint (period st)"
    and r1: "0 \<le> sint (compare1_value st)" "sint (compare1_value st) \<le> uint (period st)"
    using assms(1) by (simp_all add: in_range_def)
  note i0 = sint_add_delta_clamped [OF r0 assms(2)]
    and i1 = sint_add_delta_clamped [OF r1 assms(2)]
    and d0 = sint_sub_delta_clamped [OF r0(1)]
    and d1 = sint_sub_delta_clamped [OF r1(1)]
  show ?thesis
    by (simp only: process_s process_w process_a process_d i0 i1 d0 d1 simp_thms)
qed

theorem clamped_addition_subtraction_witness:
  "in_range \<lparr>period = 1000, compare0_value = 950, compare1_value = 50,
             uart_read_flag = False, calls = []\<rparr> \<and>
   uint (1000 :: uint32_t) \<le> 2 ^ 31 - 101 \<and>
   sint (compare0_value (process_key_press CHR ''s''
      \<lparr>period = 1000, compare0_value = 950, compare1_value = 50,
       uart_read_flag = False, calls = []\<rparr>)) = 1000 \<and>
   sint (compare1_value (process_key_press CHR ''w''
      \<lparr>period = 1000, compare0_value = 950, compare1_value = 50,
       uart_read_flag = False, calls = []\<rparr>)) = 0"
proof -
  let ?st = "\<lparr>period = 1000, compare0_value = 950, compare1_value = 50,
             uart_read_flag = False, calls = []\<rparr>"
  have h1: "in_range ?st"
    by (simp add: in_range_def)
  have h2: "uint (period ?st) \<le> 2 ^ 31 - 101"
    by simp
  show ?thesis
    using h1 clamped_addition_subtraction [OF h1 h2] by simp
qed

section \<open>Register writes and the swap trigger\<close>

text \<open>
  Claim C3. For every key among \<open>s\<close>, \<open>w\<close>, \<open>a\<close>, \<open>d\<close>, \<open>process_key_press\<close> writes the
  updated \<open>compare0_value\<close> to the CC0 buffer register, then the updated
  \<open>compare1_value\<close> to the CC1 buffer register, and then issues exactly one
  compare-swap trigger: after the two \<open>printf\<close> calls these are its only calls, in
  this order.
\<close>

theorem writes_then_one_swap:
  assumes "key \<in> commands"
  shows "calls (process_key_press key st) = calls st @
     [Printf_Pressed_key key,
      Printf_Period_Compare (period st) (compare0_value (process_key_press key st))
        (compare1_value (process_key_press key st)),
      Cy_TCPWM_PWM_SetCompare0BufVal (compare0_value (process_key_press key st)),
      Cy_TCPWM_PWM_SetCompare1BufVal (compare1_value (process_key_press key st)),
      Cy_TCPWM_TriggerCaptureOrSwap_Single]"
  using assms by (rule process_command_calls)

theorem writes_then_one_swap_witness:
  "CHR ''a'' \<in> commands \<and>
   calls (process_key_press CHR ''a''
      \<lparr>period = 1000, compare0_value = 950, compare1_value = 50,
       uart_read_flag = False, calls = []\<rparr>) =
     [Printf_Pressed_key CHR ''a'', Printf_Period_Compare 1000 850 150,
      Cy_TCPWM_PWM_SetCompare0BufVal 850, Cy_TCPWM_PWM_SetCompare1BufVal 150,
      Cy_TCPWM_TriggerCaptureOrSwap_Single]"
proof -
  have h0: "CHR ''a'' \<in> commands"
    by (simp add: commands_def)
  show ?thesis
    using h0 writes_then_one_swap [OF h0, of "\<lparr>period = 1000, compare0_value = 950,
      compare1_value = 50, uart_read_flag = False, calls = []\<rparr>"]
    by (simp add: process_a add_delta_clamped_def sub_delta_clamped_def gt_period_def
        lt_zero_def COMPARE_VALUE_DELTA_def)
qed

section \<open>Characters that are not commands\<close>

text \<open>
  Claim C8. For every character other than \<open>s\<close>, \<open>w\<close>, \<open>a\<close>, \<open>d\<close>,
  \<open>process_key_press\<close> leaves \<open>compare0_value\<close>, \<open>compare1_value\<close> and \<open>period\<close>
  unchanged and makes no buffer-register write and no swap trigger: its calls are the
  three \<open>printf\<close> calls (the key, the complaint, the instructions) and nothing else.
\<close>

theorem other_keys_only_print:
  assumes "key \<notin> commands"
  shows "compare0_value (process_key_press key st) = compare0_value st \<and>
         compare1_value (process_key_press key st) = compare1_value st \<and>
         period (process_key_press key st) = period st \<and>
         calls (process_key_press key st) =
           calls st @ [Printf_Pressed_key key, Printf_Wrong_key, Printf_Instructions]"
proof -
  have "process_key_press key st =
      st\<lparr>calls := calls st @ [Printf_Pressed_key key, Printf_Wrong_key, Printf_Instructions]\<rparr>"
    using assms by (rule process_other)
  then show ?thesis
    by simp
qed

theorem other_keys_only_print_witness:
  "CHR ''x'' \<notin> commands \<and>
   compare0_value (process_key_press CHR ''x''
      \<lparr>period = 1000, compare0_value = 950, compare1_value = 50,
       uart_read_flag = False, calls = []\<rparr>) = 950 \<and>
   calls (process_key_press CHR ''x''
      \<lparr>period = 1000, compare0_value = 950, compare1_value = 50,
       uart_read_flag = False, calls = []\<rparr>) =
     [Printf_Pressed_key CHR ''x'', Printf_Wrong_key, Printf_Instructions]"
proof -
  have h0: "CHR ''x'' \<notin> commands"
    by (simp add: commands_def)
  show ?thesis
    using h0 other_keys_only_print [OF h0, of "\<lparr>period = 1000, compare0_value = 950,
      compare1_value = 50, uart_read_flag = False, calls = []\<rparr>"]
    by simp
qed

section \<open>Which characters update, write and swap\<close>

text \<open>
  The sentence of the specification read for every received character fails: for
  \<open>x\<close> the compare values stay as they are and the calls hold no register write and
  no swap trigger.
\<close>

theorem every_character_counterexample:
  "compare0_value (process_key_press CHR ''x''
      \<lparr>period = 1000, compare0_value = 500, compare1_value = 500,
       uart_read_flag = False, calls = []\<rparr>) = 500 \<and>
   compare1_value (process_key_press CHR ''x''
      \<lparr>period = 1000, compare0_value = 500, compare1_value = 500,
       uart_read_flag = False, calls = []\<rparr>) = 500 \<and>
   calls (process_key_press CHR ''x''
      \<lparr>period = 1000, compare0_value = 500, compare1_value = 500,
       uart_read_flag = False, calls = []\<rparr>) =
     [Printf_Pressed_key CHR ''x'', Printf_Wrong_key, Printf_Instructions]"
  by (simp add: process_key_press_def update_compare_values_def emit_def
      print_instructions_def)

text \<open>
  Claim C4, amended. For every received character among \<open>s\<close>, \<open>w\<close>, \<open>a\<close>, \<open>d\<close>,
  \<open>process_key_press\<close> adds the constant to or subtracts it from each compare value
  and clamps it, writes both to the buffered compare registers and issues one swap
  trigger; for every other character it changes neither compare value and makes no
  register write and no swap trigger.
\<close>

theorem update_write_swap_for_commands_only:
  "(key \<in> commands \<longrightarrow>
      compare0_value (process_key_press key st) =
        (if key \<in> {CHR ''s'', CHR ''d''}
         then add_delta_clamped (period st) (compare0_value st)
         else sub_delta_clamped (compare0_value st)) \<and>
      compare1_value (process_key_press key st) =
        (if key \<in> {CHR ''s'', CHR ''a''}
         then add_delta_clamped (period st) (compare1_value st)
         else sub_delta_clamped (compare1_value st)) \<and>
      new_calls st (process_key_press key st) =
        [Printf_Pressed_key key,
         Printf_Period_Compare (period st) (compare0_value (process_key_press key st))
           (compare1_value (process_key_press key st)),
         Cy_TCPWM_PWM_SetCompare0BufVal (compare0_value (process_key_press key st)),
         Cy_TCPWM_PWM_SetCompare1BufVal (compare1_value (process_key_press key st)),
         Cy_TCPWM_TriggerCaptureOrSwap_Single]) \<and>
   (key \<notin> commands \<longrightarrow>
      compare0_value (process_key_press key st) = compare0_value st \<and>
      compare1_value (process_key_press key st) = compare1_value st \<and>
      new_calls st (process_key_press key st) =
        [Printf_Pressed_key key, Printf_Wrong_key, Printf_Instructions])"
proof (cases "key \<in> commands")
  case True
  show ?thesis
    using True process_command_values [OF True, of st]
    by (simp add: new_calls_def process_command_calls [OF True])
next
  case False
  show ?thesis
    using False by (simp add: new_calls_def process_other [OF False])
qed

theorem update_write_swap_for_commands_only_witness:
  "CHR ''s'' \<in> commands \<and> CHR ''x'' \<notin> commands \<and>
   new_calls \<lparr>period = 1000, compare0_value = 950, compare1_value = 50,
       uart_read_flag = False, calls = []\<rparr>
     (process_key_press CHR ''s''
      \<lparr>period = 1000, compare0_value = 950, compare1_value = 50,
       uart_read_flag = False, calls = []\<rparr>) =
     [Printf_Pressed_key CHR ''s'', Printf_Period_Compare 1000 1000 150,
      Cy_TCPWM_PWM_SetCompare0BufVal 1000, Cy_TCPWM_PWM_SetCompare1BufVal 150,
      Cy_TCPWM_TriggerCaptureOrSwap_Single] \<and>
   new_calls \<lparr>period = 1000, compare0_value = 950, compare1_value = 50,
       uart_read_flag = False, calls = []\<rparr>
     (process_key_press CHR ''x''
      \<lparr>period = 1000, compare0_value = 950, compare1_value = 50,
       uart_read_flag = False, calls = []\<rparr>) =
     [Printf_Pressed_key CHR ''x'', Printf_Wrong_key, Printf_Instructions]"
proof -
  let ?st = "\<lparr>period = 1000, compare0_value = 950, compare1_value = 50,
       uart_read_flag = False, calls = []\<rparr>"
  have h0: "CHR ''s'' \<in> commands" and h1: "CHR ''x'' \<notin> commands"
    by (simp_all add: commands_def)
  show ?thesis
    using h0 h1 update_write_swap_for_commands_only [of "CHR ''s''" ?st]
      update_write_swap_for_commands_only [of "CHR ''x''" ?st]
    by (simp add: add_delta_clamped_def sub_delta_clamped_def gt_period_def
        lt_zero_def to_int32_def COMPARE_VALUE_DELTA_def)
qed

section \<open>The period is never written after start\<close>

text \<open>
  Claim C5. The period is read-only after start: \<open>main\<close> fetches it once from the
  period register during initialisation, and no operation changes it afterwards, not
  any branch of \<open>process_key_press\<close>, not an iteration of the main loop, not the event
  handler, and so no run of the program.
\<close>

theorem period_read_only:
  "period (process_key_press key st) = period st \<and>
   period (main_loop_iteration c st) = period st \<and>
   (\<forall>st'. uart_event_handler rx_done event st = Inr st' \<longrightarrow> period st' = period st) \<and>
   (\<forall>st'. run rx_done ins st = Inr st' \<longrightarrow> period st' = period st) \<and>
   (\<forall>st'. main b rx_done ins = Inr st' \<longrightarrow> period st' = Period0 b)"
proof -
  have "period st' = Period0 b" if "main b rx_done ins = Inr st'" for st'
  proof -
    from that obtain st0 where i: "main_init b = Inr st0" and r: "run rx_done ins st0 = Inr st'"
      by (auto simp: main_def split: sum.splits)
    from run_period [OF r] main_init_period [OF i] show ?thesis by simp
  qed
  then show ?thesis
    by (simp add: process_period iteration_period handler_period run_period)
qed

theorem period_read_only_witness:
  "(case main \<lparr>CY_RSLT_SUCCESS = 0, cybsp_init_result = 0, Period0 = 1000, Compare0Val = 500,
      Compare1Val = 250\<rparr> 32 [Uart_event 32, Loop_iteration CHR ''s''] of
      Inl h \<Rightarrow> False | Inr st' \<Rightarrow> period st' = 1000 \<and> compare0_value st' = 600)"
proof -
  let ?b = "\<lparr>CY_RSLT_SUCCESS = 0, cybsp_init_result = 0, Period0 = 1000, Compare0Val = 500,
      Compare1Val = 250\<rparr>"
  let ?ins = "[Uart_event 32, Loop_iteration CHR ''s'']"
  obtain st' where m: "main ?b 32 ?ins = Inr st'"
    by (auto simp: main_def main_init_def uart_event_handler_def Let_def)
  have p: "period st' = Period0 ?b"
    using period_read_only [where rx_done = 32 and ins = ?ins and b = ?b] m by blast
  have c: "compare0_value st' = 600"
    using m
    by (auto simp: main_def main_init_def uart_event_handler_def Let_def
        main_loop_iteration_def emit_fields process_s add_delta_clamped_def
        gt_period_def to_int32_def COMPARE_VALUE_DELTA_def startup_def print_instructions_def)
  show ?thesis
    using m p c by simp
qed

section \<open>Where the program asserts\<close>

text \<open>
  The claim that the assertion after \<open>cybsp_init\<close> is the only one fails: with
  \<open>cybsp_init\<close> returning \<open>CY_RSLT_SUCCESS\<close>, an event without the \<open>RX_DONE\<close> bit
  (here \<open>RX_DONE\<close> is bit 5 and the event is bit 6 alone) takes the handler to its
  own \<open>CY_ASSERT(0)\<close>.
\<close>

theorem single_assertion_counterexample:
  "cybsp_init_result \<lparr>CY_RSLT_SUCCESS = 0, cybsp_init_result = 0, Period0 = 1000,
      Compare0Val = 500, Compare1Val = 250\<rparr>
     = CY_RSLT_SUCCESS \<lparr>CY_RSLT_SUCCESS = 0, cybsp_init_result = 0, Period0 = 1000,
      Compare0Val = 500, Compare1Val = 250\<rparr> \<and>
   main \<lparr>CY_RSLT_SUCCESS = 0, cybsp_init_result = 0, Period0 = 1000,
      Compare0Val = 500, Compare1Val = 250\<rparr> 32 [Uart_event 64] = Inl CY_ASSERT_failed"
  by (simp add: main_def main_init_def uart_event_handler_def Let_def)

text \<open>
  Claim C6, amended. The program's failure handling is two assertions:
  \<open>CY_ASSERT(0)\<close> is reached if and only if \<open>cybsp_init\<close> returns a result different
  from \<open>CY_RSLT_SUCCESS\<close> or the UART event handler is called with an event that does
  not include \<open>CYHAL_UART_IRQ_RX_DONE\<close>; no other path of the program asserts.
\<close>

theorem assertion_reached_iff:
  "main b rx_done ins = Inl CY_ASSERT_failed \<longleftrightarrow>
     cybsp_init_result b \<noteq> CY_RSLT_SUCCESS b \<or>
     (\<exists>event. Uart_event event \<in> set ins \<and> rx_done \<noteq> (event AND rx_done))"
proof (cases "main_init b")
  case (Inl h)
  then have "main_init b = Inl CY_ASSERT_failed"
    by (cases h) simp
  then show ?thesis
    using main_init_halts_iff [of b] by (simp add: main_def)
next
  case (Inr st)
  then have "cybsp_init_result b = CY_RSLT_SUCCESS b"
    using main_init_halts_iff [of b] by auto
  then show ?thesis
    using Inr run_halts_iff [of rx_done ins st] by (simp add: main_def)
qed

theorem assertion_reached_iff_witness:
  "main \<lparr>CY_RSLT_SUCCESS = 0, cybsp_init_result = 0, Period0 = 1000,
      Compare0Val = 500, Compare1Val = 250\<rparr> 32
      [Loop_iteration CHR ''s'', Uart_event 32, Loop_iteration CHR ''w'']
     \<noteq> Inl CY_ASSERT_failed \<and>
   main \<lparr>CY_RSLT_SUCCESS = 0, cybsp_init_result = 7, Period0 = 1000,
      Compare0Val = 500, Compare1Val = 250\<rparr> 32 [] = Inl CY_ASSERT_failed"
  using assertion_reached_iff [of "\<lparr>CY_RSLT_SUCCESS = 0, cybsp_init_result = 0,
      Period0 = 1000, Compare0Val = 500, Compare1Val = 250\<rparr>" 32
      "[Loop_iteration CHR ''s'', Uart_event 32, Loop_iteration CHR ''w'']"]
    assertion_reached_iff [of "\<lparr>CY_RSLT_SUCCESS = 0, cybsp_init_result = 7,
      Period0 = 1000, Compare0Val = 500, Compare1Val = 250\<rparr>" 32 "[]"]
  by simp

section \<open>The flag between the handler and the loop\<close>

text \<open>
  Claim C7. The handler and the loop meet in \<open>uart_read_flag\<close> alone. The handler
  sets the flag, and changes nothing else, exactly when the event includes
  \<open>CYHAL_UART_IRQ_RX_DONE\<close> (otherwise it asserts). Every iteration of the loop
  begins one asynchronous read, calls \<open>process_key_press\<close> only when the flag is set
  at the test, clears the flag before it processes the key, and ends with the delay
  of \<open>DELAY_BETWEEN_READ_MS\<close>. The order of clearing and processing shows in what
  interrupts do to an iteration: events that arrive before the clear are consumed
  with the key being processed, and an event that arrives after the clear, while the
  key is processed or later, leaves the flag set for the next iteration. An iteration
  that finds the flag clear makes the read and the delay only and leaves the compare
  values alone; without interrupts an iteration ends with the flag clear.
\<close>

theorem flag_coordination:
  "(uart_event_handler rx_done event st = Inr (st\<lparr>uart_read_flag := True\<rparr>))
      = (rx_done = (event AND rx_done)) \<and>
   (uart_event_handler rx_done event st = Inl CY_ASSERT_failed)
      = (rx_done \<noteq> (event AND rx_done)) \<and>
   ((\<forall>e \<in> set (es1 @ es2 @ es3 @ es4). rx_done = (e AND rx_done)) \<and>
    (uart_read_flag st \<or> es1 \<noteq> []) \<longrightarrow>
    exec rx_done
      (Step c # map Interrupt es1 @ Step c # map Interrupt es2 @ Step c #
       map Interrupt es3 @ Step c # map Interrupt es4 @ [Step c]) (At_read_async, st) =
    Inr (At_read_async,
      (main_loop_iteration c (st\<lparr>uart_read_flag := True\<rparr>))
        \<lparr>uart_read_flag := es3 @ es4 \<noteq> []\<rparr>)) \<and>
   ((\<forall>e \<in> set es2. rx_done = (e AND rx_done)) \<and> \<not> uart_read_flag st \<longrightarrow>
    exec rx_done (Step c # Step c # map Interrupt es2 @ [Step c]) (At_read_async, st) =
    Inr (At_read_async, (main_loop_iteration c st)\<lparr>uart_read_flag := es2 \<noteq> []\<rparr>)) \<and>
   calls (main_loop_iteration c st) =
      calls st @ [Cyhal_uart_read_async] @
      (if uart_read_flag st then new_calls st (process_key_press c st) else []) @
      [Cyhal_system_delay_ms 100] \<and>
   (Printf_Pressed_key c \<in> set (new_calls st (main_loop_iteration c st)))
      = uart_read_flag st \<and>
   uart_read_flag (main_loop_iteration c st) = False \<and>
   (uart_read_flag st \<or> compare_values (main_loop_iteration c st) = compare_values st)"
proof -
  have h1: "(uart_event_handler rx_done event st = Inr (st\<lparr>uart_read_flag := True\<rparr>))
      = (rx_done = (event AND rx_done))"
    by (simp add: uart_event_handler_def)
  have h2: "(uart_event_handler rx_done event st = Inl CY_ASSERT_failed)
      = (rx_done \<noteq> (event AND rx_done))"
    by (simp add: uart_event_handler_def)
  have s1: "(\<forall>e \<in> set (es1 @ es2 @ es3 @ es4). rx_done = (e AND rx_done)) \<and>
    (uart_read_flag st \<or> es1 \<noteq> []) \<longrightarrow>
    exec rx_done
      (Step c # map Interrupt es1 @ Step c # map Interrupt es2 @ Step c #
       map Interrupt es3 @ Step c # map Interrupt es4 @ [Step c]) (At_read_async, st) =
    Inr (At_read_async,
      (main_loop_iteration c (st\<lparr>uart_read_flag := True\<rparr>))
        \<lparr>uart_read_flag := es3 @ es4 \<noteq> []\<rparr>)"
    using iteration_flag_set [of es1 es2 es3 es4 rx_done st c] by blast
  have s2: "(\<forall>e \<in> set es2. rx_done = (e AND rx_done)) \<and> \<not> uart_read_flag st \<longrightarrow>
    exec rx_done (Step c # Step c # map Interrupt es2 @ [Step c]) (At_read_async, st) =
    Inr (At_read_async, (main_loop_iteration c st)\<lparr>uart_read_flag := es2 \<noteq> []\<rparr>)"
    using iteration_flag_clear [of es2 rx_done st c] by blast
  have i3: "(Printf_Pressed_key c \<in> set (new_calls st (main_loop_iteration c st)))
      = uart_read_flag st"
    using process_first_call [of c st]
    by (simp add: new_calls_def iteration_calls)
  have i5: "uart_read_flag st \<or> compare_values (main_loop_iteration c st) = compare_values st"
    using iteration_idle [of st c] by blast
  show ?thesis
    using h1 h2 s1 s2 iteration_calls [of c st] i3 iteration_flag [of c st] i5
    by (intro conjI)
qed

theorem flag_coordination_witness:
  "uart_event_handler 32 48 \<lparr>period = 1000, compare0_value = 500, compare1_value = 250,
       uart_read_flag = False, calls = []\<rparr>
     = Inr \<lparr>period = 1000, compare0_value = 500, compare1_value = 250,
       uart_read_flag = True, calls = []\<rparr> \<and>
   uart_event_handler 32 64 \<lparr>period = 1000, compare0_value = 500, compare1_value = 250,
       uart_read_flag = False, calls = []\<rparr> = Inl CY_ASSERT_failed \<and>
   exec 32 [Step CHR ''w'', Step CHR ''w'', Step CHR ''w'', Interrupt 32, Step CHR ''w'',
            Step CHR ''w'']
     (At_read_async, \<lparr>period = 1000, compare0_value = 500, compare1_value = 250,
       uart_read_flag = True, calls = []\<rparr>) =
     Inr (At_read_async, \<lparr>period = 1000, compare0_value = 400, compare1_value = 150,
       uart_read_flag = True,
       calls = [Cyhal_uart_read_async, Printf_Pressed_key CHR ''w'',
         Printf_Period_Compare 1000 400 150, Cy_TCPWM_PWM_SetCompare0BufVal 400,
         Cy_TCPWM_PWM_SetCompare1BufVal 150, Cy_TCPWM_TriggerCaptureOrSwap_Single,
         Cyhal_system_delay_ms 100]\<rparr>) \<and>
   exec 32 [Step CHR ''w'', Step CHR ''w'', Interrupt 32, Step CHR ''w'']
     (At_read_async, \<lparr>period = 1000, compare0_value = 500, compare1_value = 250,
       uart_read_flag = False, calls = []\<rparr>) =
     Inr (At_read_async, \<lparr>period = 1000, compare0_value = 500, compare1_value = 250,
       uart_read_flag = True,
       calls = [Cyhal_uart_read_async, Cyhal_system_delay_ms 100]\<rparr>)"
proof -
  let ?st = "\<lparr>period = 1000, compare0_value = 500, compare1_value = 250,
       uart_read_flag = False, calls = []\<rparr>"
  let ?st1 = "\<lparr>period = 1000, compare0_value = 500, compare1_value = 250,
       uart_read_flag = True, calls = []\<rparr>"
  note set_case = conjunct2 [THEN conjunct2, THEN conjunct1]
  note clear_case = conjunct2 [THEN conjunct2, THEN conjunct2, THEN conjunct1]
  have h: "uart_event_handler 32 48 ?st = Inr ?st1"
    using flag_coordination [of 32 48 ?st, THEN conjunct1] by simp
  have a: "uart_event_handler 32 64 ?st = Inl CY_ASSERT_failed"
    using flag_coordination [of 32 64 ?st, THEN conjunct2, THEN conjunct1] by simp
  have m1: "main_loop_iteration CHR ''w'' ?st1 =
     \<lparr>period = 1000, compare0_value = 400, compare1_value = 150, uart_read_flag = False,
      calls = [Cyhal_uart_read_async, Printf_Pressed_key CHR ''w'',
         Printf_Period_Compare 1000 400 150, Cy_TCPWM_PWM_SetCompare0BufVal 400,
         Cy_TCPWM_PWM_SetCompare1BufVal 150, Cy_TCPWM_TriggerCaptureOrSwap_Single,
         Cyhal_system_delay_ms 100]\<rparr>"
    by (simp add: main_loop_iteration_def process_key_press_def update_compare_values_def
        emit_def Let_def lt_zero_def to_uint32_def COMPARE_VALUE_DELTA_def
        DELAY_BETWEEN_READ_MS_def)
  have m0: "main_loop_iteration CHR ''w'' ?st =
     \<lparr>period = 1000, compare0_value = 500, compare1_value = 250, uart_read_flag = False,
      calls = [Cyhal_uart_read_async, Cyhal_system_delay_ms 100]\<rparr>"
    by (simp add: main_loop_iteration_def emit_def Let_def DELAY_BETWEEN_READ_MS_def)
  have e1: "exec 32 [Step CHR ''w'', Step CHR ''w'', Step CHR ''w'', Interrupt 32,
      Step CHR ''w'', Step CHR ''w''] (At_read_async, ?st1) =
      Inr (At_read_async, (main_loop_iteration CHR ''w'' ?st1)\<lparr>uart_read_flag := True\<rparr>)"
    using flag_coordination [where rx_done = 32 and st = ?st1 and c = "CHR ''w''"
        and ?es1.0 = "[]" and ?es2.0 = "[]" and ?es3.0 = "[32]" and ?es4.0 = "[]",
        THEN set_case]
    by simp
  have e0: "exec 32 [Step CHR ''w'', Step CHR ''w'', Interrupt 32, Step CHR ''w'']
      (At_read_async, ?st) =
      Inr (At_read_async, (main_loop_iteration CHR ''w'' ?st)\<lparr>uart_read_flag := True\<rparr>)"
    using flag_coordination [where rx_done = 32 and st = ?st and c = "CHR ''w''"
        and ?es2.0 = "[32]", THEN clear_case]
    by simp
  show ?thesis
    using h a e1 e0 by (simp add: m1 m0)
qed

section \<open>Shifting left and right again\<close>

text \<open>
  Claim C9. The commands undo each other when no clamp fires: \<open>a\<close> then \<open>d\<close>, \<open>d\<close>
  then \<open>a\<close>, and \<open>w\<close> then \<open>s\<close> each restore the pair of compare values of every
  state in which neither of the two updates clamps. For a state in range with
  \<open>100 \<le> compare0_value\<close> and \<open>compare1_value \<le> period - 100\<close> no clamp fires in \<open>a\<close>
  then \<open>d\<close>, and for a state with both values in \<open>[100, period - 100]\<close> none fires in
  \<open>w\<close> then \<open>s\<close>, so there the pair is restored.
\<close>

theorem shifts_inverse_without_clamp:
  "(\<not> clamp_fires CHR ''a'' st \<and> \<not> clamp_fires CHR ''d'' (process_key_press CHR ''a'' st)
    \<longrightarrow> compare_values (process_key_press CHR ''d'' (process_key_press CHR ''a'' st))
          = compare_values st) \<and>
   (\<not> clamp_fires CHR ''d'' st \<and> \<not> clamp_fires CHR ''a'' (process_key_press CHR ''d'' st)
    \<longrightarrow> compare_values (process_key_press CHR ''a'' (process_key_press CHR ''d'' st))
          = compare_values st) \<and>
   (\<not> clamp_fires CHR ''w'' st \<and> \<not> clamp_fires CHR ''s'' (process_key_press CHR ''w'' st)
    \<longrightarrow> compare_values (process_key_press CHR ''s'' (process_key_press CHR ''w'' st))
          = compare_values st) \<and>
   (in_range st \<and> 100 \<le> sint (compare0_value st) \<and>
    sint (compare1_value st) \<le> uint (period st) - 100
    \<longrightarrow> \<not> clamp_fires CHR ''a'' st \<and>
        \<not> clamp_fires CHR ''d'' (process_key_press CHR ''a'' st) \<and>
        compare_values (process_key_press CHR ''d'' (process_key_press CHR ''a'' st))
          = compare_values st) \<and>
   (100 \<le> sint (compare0_value st) \<and> sint (compare0_value st) \<le> uint (period st) - 100 \<and>
    100 \<le> sint (compare1_value st) \<and> sint (compare1_value st) \<le> uint (period st) - 100
    \<longrightarrow> \<not> clamp_fires CHR ''w'' st \<and>
        \<not> clamp_fires CHR ''s'' (process_key_press CHR ''w'' st) \<and>
        compare_values (process_key_press CHR ''s'' (process_key_press CHR ''w'' st))
          = compare_values st)"
proof -
  have ad: "compare_values (process_key_press CHR ''d'' (process_key_press CHR ''a'' st))
      = compare_values st"
    if "\<not> clamp_fires CHR ''a'' st" "\<not> clamp_fires CHR ''d'' (process_key_press CHR ''a'' st)"
    by (simp add: compare_values_def no_clamp_d [OF that(2)] no_clamp_a [OF that(1)])
  have da: "compare_values (process_key_press CHR ''a'' (process_key_press CHR ''d'' st))
      = compare_values st"
    if "\<not> clamp_fires CHR ''d'' st" "\<not> clamp_fires CHR ''a'' (process_key_press CHR ''d'' st)"
    by (simp add: compare_values_def no_clamp_a [OF that(2)] no_clamp_d [OF that(1)])
  have ws: "compare_values (process_key_press CHR ''s'' (process_key_press CHR ''w'' st))
      = compare_values st"
    if "\<not> clamp_fires CHR ''w'' st" "\<not> clamp_fires CHR ''s'' (process_key_press CHR ''w'' st)"
    by (simp add: compare_values_def no_clamp_s [OF that(2)] no_clamp_w [OF that(1)])
  show ?thesis
    using ad da ws bounds_no_clamp_a_d [of st] bounds_no_clamp_w_s [of st] by blast
qed

theorem shifts_inverse_without_clamp_witness:
  "\<not> clamp_fires CHR ''a'' \<lparr>period = 1000, compare0_value = 950, compare1_value = 500,
       uart_read_flag = False, calls = []\<rparr> \<and>
   \<not> clamp_fires CHR ''d'' (process_key_press CHR ''a''
      \<lparr>period = 1000, compare0_value = 950, compare1_value = 500,
       uart_read_flag = False, calls = []\<rparr>) \<and>
   compare_values (process_key_press CHR ''d'' (process_key_press CHR ''a''
      \<lparr>period = 1000, compare0_value = 950, compare1_value = 500,
       uart_read_flag = False, calls = []\<rparr>)) = (950, 500) \<and>
   \<not> clamp_fires CHR ''d'' \<lparr>period = 1000, compare0_value = 500, compare1_value = 950,
       uart_read_flag = False, calls = []\<rparr> \<and>
   \<not> clamp_fires CHR ''a'' (process_key_press CHR ''d''
      \<lparr>period = 1000, compare0_value = 500, compare1_value = 950,
       uart_read_flag = False, calls = []\<rparr>) \<and>
   compare_values (process_key_press CHR ''a'' (process_key_press CHR ''d''
      \<lparr>period = 1000, compare0_value = 500, compare1_value = 950,
       uart_read_flag = False, calls = []\<rparr>)) = (500, 950) \<and>
   100 \<le> sint (500 :: int32_t) \<and> sint (900 :: int32_t) \<le> uint (1000 :: uint32_t) - 100 \<and>
   compare_values (process_key_press CHR ''s'' (process_key_press CHR ''w''
      \<lparr>period = 1000, compare0_value = 500, compare1_value = 900,
       uart_read_flag = False, calls = []\<rparr>)) = (500, 900)"
proof -
  let ?s1 = "\<lparr>period = 1000, compare0_value = 950, compare1_value = 500,
       uart_read_flag = False, calls = []\<rparr>"
  let ?s2 = "\<lparr>period = 1000, compare0_value = 500, compare1_value = 950,
       uart_read_flag = False, calls = []\<rparr>"
  let ?s3 = "\<lparr>period = 1000, compare0_value = 500, compare1_value = 900,
       uart_read_flag = False, calls = []\<rparr>"
  have a1: "\<not> clamp_fires CHR ''a'' ?s1"
    and a2: "\<not> clamp_fires CHR ''d'' (process_key_press CHR ''a'' ?s1)"
    and d1: "\<not> clamp_fires CHR ''d'' ?s2"
    and d2: "\<not> clamp_fires CHR ''a'' (process_key_press CHR ''d'' ?s2)"
    by (simp_all add: clamp_fires_def process_a process_d process_period add_delta_clamped_def
        sub_delta_clamped_def gt_period_def lt_zero_def COMPARE_VALUE_DELTA_def)
  show ?thesis
    using a1 a2 d1 d2 shifts_inverse_without_clamp [of ?s1]
      shifts_inverse_without_clamp [of ?s2] shifts_inverse_without_clamp [of ?s3]
    by (simp add: compare_values_def)
qed

section \<open>Signed and unsigned operands\<close>

text \<open>
  Claim C10. The comparisons \<open>compare0_value > period\<close> and \<open>compare1_value > period\<close>
  convert the \<open>int32_t\<close> operand to \<open>uint32_t\<close>, and the clamping assignments store the
  \<open>uint32_t\<close> period into an \<open>int32_t\<close>. If both compare values lie in \<open>[0, period]\<close>
  and \<open>period \<le> 2^31 - 101\<close>, then for every command no signed addition or
  subtraction overflows, each such comparison agrees with the comparison of the
  mathematical values, and the period stored into an \<open>int32_t\<close> keeps its value.
\<close>

theorem mixed_sign_arithmetic_safe:
  assumes "key \<in> commands" and "in_range st" and "uint (period st) \<le> 2 ^ 31 - 101"
  shows "\<not> signed_overflow key st \<and>
    gt_period (compare0_value st + COMPARE_VALUE_DELTA) (period st)
      = (uint (period st) < sint (compare0_value st) + 100) \<and>
    gt_period (compare1_value st + COMPARE_VALUE_DELTA) (period st)
      = (uint (period st) < sint (compare1_value st) + 100) \<and>
    sint (to_int32 (period st)) = uint (period st)"
proof -
  have r0: "0 \<le> sint (compare0_value st)" "sint (compare0_value st) \<le> 2 ^ 31 - 101"
    and r1: "0 \<le> sint (compare1_value st)" "sint (compare1_value st) \<le> 2 ^ 31 - 101"
    using assms(2,3) by (simp_all add: in_range_def)
  have o: "\<not> signed_overflow key st"
    using add_delta_fits [OF r0] add_delta_fits [OF r1]
      sub_delta_fits [OF r0(1)] sub_delta_fits [OF r1(1)]
    by (simp add: signed_overflow_def)
  have g0: "gt_period (compare0_value st + COMPARE_VALUE_DELTA) (period st)
      = (uint (period st) < sint (compare0_value st) + 100)"
    using gt_period_iff [of "compare0_value st + COMPARE_VALUE_DELTA" "period st"]
      sint_add_delta [OF r0] r0(1) by simp
  have g1: "gt_period (compare1_value st + COMPARE_VALUE_DELTA) (period st)
      = (uint (period st) < sint (compare1_value st) + 100)"
    using gt_period_iff [of "compare1_value st + COMPARE_VALUE_DELTA" "period st"]
      sint_add_delta [OF r1] r1(1) by simp
  have s: "sint (to_int32 (period st)) = uint (period st)"
    using assms(3) by (intro sint_to_int32) simp
  show ?thesis
    using o g0 g1 s by (intro conjI)
qed

theorem mixed_sign_arithmetic_safe_witness:
  "CHR ''s'' \<in> commands \<and>
   in_range \<lparr>period = 1000, compare0_value = 950, compare1_value = 50,
             uart_read_flag = False, calls = []\<rparr> \<and>
   uint (1000 :: uint32_t) \<le> 2 ^ 31 - 101 \<and>
   \<not> signed_overflow CHR ''s'' \<lparr>period = 1000, compare0_value = 950, compare1_value = 50,
             uart_read_flag = False, calls = []\<rparr> \<and>
   gt_period (950 + COMPARE_VALUE_DELTA) 1000 \<and>
   \<not> gt_period (50 + COMPARE_VALUE_DELTA) 1000 \<and>
   sint (to_int32 1000) = 1000"
proof -
  let ?st = "\<lparr>period = 1000, compare0_value = 950, compare1_value = 50,
             uart_read_flag = False, calls = []\<rparr>"
  have h0: "CHR ''s'' \<in> commands"
    by (simp add: commands_def)
  have h1: "in_range ?st"
    by (simp add: in_range_def)
  have h2: "uint (period ?st) \<le> 2 ^ 31 - 101"
    by simp
  show ?thesis
    using h0 h1 mixed_sign_arithmetic_safe [OF h0 h1 h2] by simp
qed

end
